theory Spec2Isabelle
  imports Complex_Main "HOL-Library.Char_ord" "HOL-Library.List_Lexorder"
    "HOL-Library.Product_Lexorder" "HOL-Library.Multiset"
begin

section \<open>Shallow embedding of dvr\_system.py\<close>

text \<open>
  The program keeps its state in module-level globals that the HTTP handlers and the
  background threads read and write. The embedding collects these globals in one record
  and turns every handler into a function from the state (and the values the handler
  reads from the clock, the filesystem or the sensor) to its response and the new state.
  Python floats are idealised as real numbers, Python exceptions are values of a sum type.
\<close>

subsection \<open>Wall-clock timestamps and \<open>strftime\<close>\<close>

text \<open>
  A \<open>datetime\<close> object as returned by \<open>datetime.now()\<close> and
  \<open>datetime.fromtimestamp\<close>: local broken-down time with microseconds.
\<close>

record datetime =
  year :: nat
  month :: nat
  day :: nat
  hour :: nat
  minute :: nat
  second :: nat
  microsecond :: nat

definition valid_datetime :: "datetime \<Rightarrow> bool" where
  "valid_datetime d =
     (1000 \<le> year d \<and> year d \<le> 9999 \<and> 1 \<le> month d \<and> month d \<le> 12 \<and>
      1 \<le> day d \<and> day d \<le> 31 \<and> hour d < 24 \<and> minute d < 60 \<and> second d < 60 \<and>
      microsecond d < 1000000)"

definition digit :: "nat \<Rightarrow> char" where
  "digit n = ''0123456789'' ! (n mod 10)"

definition is_digit :: "char \<Rightarrow> bool" where
  "is_digit c = (c \<in> set ''0123456789'')"

definition pad2 :: "nat \<Rightarrow> string" where
  "pad2 n = [digit (n div 10), digit n]"

definition pad4 :: "nat \<Rightarrow> string" where
  "pad4 n = [digit (n div 1000), digit (n div 100), digit (n div 10), digit n]"

text \<open>
  The directives the program uses. \<open>%Y\<close> is the year as four digits (for the years
  from 1000 on, which is all a running clock delivers, padded and unpadded output agree);
  the others are two digits, zero padded.
\<close>

definition directive :: "datetime \<Rightarrow> char \<Rightarrow> string" where
  "directive d c =
     (if c = CHR ''Y'' then pad4 (year d)
      else if c = CHR ''m'' then pad2 (month d)
      else if c = CHR ''d'' then pad2 (day d)
      else if c = CHR ''H'' then pad2 (hour d)
      else if c = CHR ''M'' then pad2 (minute d)
      else if c = CHR ''S'' then pad2 (second d)
      else [CHR ''%'', c])"

fun strftime :: "datetime \<Rightarrow> string \<Rightarrow> string" where
  "strftime d [] = []"
| "strftime d [a] = [a]"
| "strftime d (a # b # rest) =
     (if a = CHR ''%'' then directive d b @ strftime d rest
      else a # strftime d (b # rest))"

text \<open>The shape \<open>YYYYMMDD_HHMMSS\<close>: eight digits, an underscore, six digits.\<close>

definition is_stamp :: "string \<Rightarrow> bool" where
  "is_stamp s =
     (length s = 15 \<and> list_all is_digit (take 8 s) \<and> s ! 8 = CHR ''_'' \<and>
      list_all is_digit (drop 9 s))"

text \<open>Reading a decimal numeral back, to say which time a stamp denotes.\<close>

definition digit_val :: "char \<Rightarrow> nat" where
  "digit_val c = (of_char c - 48)"

definition decimal :: "string \<Rightarrow> nat" where
  "decimal s = foldl (\<lambda>acc c. 10 * acc + digit_val c) 0 s"

definition stamp_fields :: "string \<Rightarrow> nat \<times> nat \<times> nat \<times> nat \<times> nat \<times> nat" where
  "stamp_fields s =
     (decimal (take 4 s), decimal (take 2 (drop 4 s)), decimal (take 2 (drop 6 s)),
      decimal (take 2 (drop 9 s)), decimal (take 2 (drop 11 s)), decimal (take 2 (drop 13 s)))"

subsection \<open>JSON values and HTTP responses\<close>

datatype json =
  JNull
| JBool bool
| JNum real
| JStr string
| JArr "json list"
| JObj "(string \<times> json) list"

text \<open>What \<open>jsonify(...)\<close> (status 200) and \<open>jsonify(...), 400\<close> return.\<close>

record response =
  body :: "(string \<times> json) list"
  code :: nat

definition field :: "response \<Rightarrow> string \<Rightarrow> json option" where
  "field r k = map_of (body r) k"

definition has_field :: "response \<Rightarrow> string \<Rightarrow> bool" where
  "has_field r k = (k \<in> set (map fst (body r)))"

definition json_opt_str :: "string option \<Rightarrow> json" where
  "json_opt_str x = (case x of None \<Rightarrow> JNull | Some s \<Rightarrow> JStr s)"

subsection \<open>Configuration and global variables\<close>

definition SSD_MOUNT_PATH :: string where
  "SSD_MOUNT_PATH = ''/mnt/ssd/recordings''"

text \<open>
  The globals of the module. \<open>started_threads\<close> is not a variable of the program: it
  lists, latest first, the file paths of the \<open>record_video\<close> threads the start handler
  has launched, so that launching a thread is visible in the model.
\<close>

record dvr_state =
  recording :: bool
  recording_filename :: "string option"
  current_voltage :: real
  current_current :: real
  current_power :: real
  system_start_time :: real
  started_threads :: "string list"

definition initial_state :: "real \<Rightarrow> dvr_state" where
  "initial_state t0 =
     \<lparr>recording = False, recording_filename = None, current_voltage = 0,
      current_current = 0, current_power = 0, system_start_time = t0,
      started_threads = []\<rparr>"

subsection \<open>Recording controller: \<open>start_recording\<close> and \<open>stop_recording\<close>\<close>

definition path_join :: "string \<Rightarrow> string \<Rightarrow> string" where
  "path_join a b = a @ ''/'' @ b"

definition start_recording :: "datetime \<Rightarrow> dvr_state \<Rightarrow> response \<times> dvr_state" where
  "start_recording now s =
     (if recording s then
        (\<lparr>body = [(''message'', JStr ''Already recording''), (''status'', JStr ''error'')],
          code = 400\<rparr>, s)
      else
        let fname = strftime now ''%Y%m%d_%H%M%S'' @ ''.avi'';
            filepath = path_join SSD_MOUNT_PATH fname
        in (\<lparr>body = [(''message'', JStr (''Recording started: '' @ fname)),
                     (''status'', JStr ''success''),
                     (''filename'', JStr fname)],
             code = 200\<rparr>,
            s\<lparr>recording := True, recording_filename := Some fname,
              started_threads := filepath # started_threads s\<rparr>))"

text \<open>
  The f-string of the stop message prints the remembered filename; Python prints
  \<open>None\<close> for the value \<open>None\<close>.
\<close>

definition py_str_opt :: "string option \<Rightarrow> string" where
  "py_str_opt x = (case x of None \<Rightarrow> ''None'' | Some s \<Rightarrow> s)"

definition stop_recording :: "dvr_state \<Rightarrow> response \<times> dvr_state" where
  "stop_recording s =
     (if \<not> recording s then
        (\<lparr>body = [(''message'', JStr ''Not currently recording''), (''status'', JStr ''error'')],
          code = 400\<rparr>, s)
      else
        let saved_filename = recording_filename s
        in (\<lparr>body = [(''message'', JStr (''Recording stopped: '' @ py_str_opt saved_filename)),
                     (''status'', JStr ''success'')],
             code = 200\<rparr>,
            s\<lparr>recording := False, recording_filename := None\<rparr>))"

text \<open>Sequences of commands, as a client issues them one after the other.\<close>

datatype command = Start datetime | Stop

fun handle :: "command \<Rightarrow> dvr_state \<Rightarrow> response \<times> dvr_state" where
  "handle (Start now) s = start_recording now s"
| "handle Stop s = stop_recording s"

fun run :: "command list \<Rightarrow> dvr_state \<Rightarrow> (command \<times> response) list \<times> dvr_state" where
  "run [] s = ([], s)"
| "run (c # cs) s =
     (let (r, s') = handle c s; (rs, s'') = run cs s' in ((c, r) # rs, s''))"

text \<open>
  A recording session is created when a start command is accepted and destroyed when a
  stop command is accepted. The sessions active after a sequence of commands are counted
  from the responses the client has seen.
\<close>

definition accepted :: "response \<Rightarrow> bool" where
  "accepted r = (code r = 200)"

definition is_start :: "command \<Rightarrow> bool" where
  "is_start c = (case c of Start _ \<Rightarrow> True | Stop \<Rightarrow> False)"

definition sessions_opened :: "(command \<times> response) list \<Rightarrow> nat" where
  "sessions_opened tr = length (filter (\<lambda>(c, r). is_start c \<and> accepted r) tr)"

definition sessions_closed :: "(command \<times> response) list \<Rightarrow> nat" where
  "sessions_closed tr = length (filter (\<lambda>(c, r). \<not> is_start c \<and> accepted r) tr)"

definition active_sessions :: "(command \<times> response) list \<Rightarrow> int" where
  "active_sessions tr = int (sessions_opened tr) - int (sessions_closed tr)"

definition filename_nonempty :: "dvr_state \<Rightarrow> bool" where
  "filename_nonempty s = (case recording_filename s of None \<Rightarrow> False | Some f \<Rightarrow> f \<noteq> [])"

subsection \<open>Exceptions and numbers\<close>

text \<open>
  The exceptions the modelled code can meet; all of them are subclasses of
  \<open>Exception\<close>, so an \<open>except Exception\<close> clause catches each of them.
  A computation that may raise returns \<open>Inl\<close> of the exception.
\<close>

datatype exn = OSError | ZeroDivisionError | DeviceRangeError | OtherException

definition try_except :: "exn + 'a \<Rightarrow> (exn \<Rightarrow> exn + 'a) \<Rightarrow> exn + 'a" where
  "try_except attempt handler = (case attempt of Inl e \<Rightarrow> handler e | Inr v \<Rightarrow> Inr v)"

definition truediv :: "real \<Rightarrow> real \<Rightarrow> exn + real" where
  "truediv a b = (if b = 0 then Inl ZeroDivisionError else Inr (a / b))"

text \<open>Python's \<open>x % y\<close> on floats: the remainder has the sign of the divisor.\<close>

definition py_mod :: "real \<Rightarrow> real \<Rightarrow> real" where
  "py_mod x y = x - y * of_int \<lfloor>x / y\<rfloor>"

text \<open>Python's \<open>round(x, n)\<close>: to \<open>n\<close> decimals, a tie going to the even digit.\<close>

definition round_half_even :: "real \<Rightarrow> int" where
  "round_half_even x =
     (let f = \<lfloor>x\<rfloor>; d = x - of_int f
      in if d < 1 / 2 then f else if 1 / 2 < d then f + 1 else if even f then f else f + 1)"

definition py_round :: "real \<Rightarrow> nat \<Rightarrow> real" where
  "py_round x n = of_int (round_half_even (x * 10 ^ n)) / 10 ^ n"

subsection \<open>Storage inspector: \<open>get_ssd_info\<close>\<close>

text \<open>The fields of \<open>os.statvfs\<close> the program reads.\<close>

record statvfs =
  f_blocks :: nat
  f_frsize :: nat
  f_bavail :: nat

record ssd_info =
  total_gb :: real
  used :: real
  free :: real
  percent :: real
  mounted :: bool

definition percent_used :: "real \<Rightarrow> real \<Rightarrow> exn + real" where
  "percent_used used_v total_v =
     (if total_v > 0 then
        (case truediv used_v total_v of Inl e \<Rightarrow> Inl e | Inr q \<Rightarrow> Inr (q * 100))
      else Inr 0)"

definition ssd_info_body :: "statvfs \<Rightarrow> exn + ssd_info" where
  "ssd_info_body stat =
     (let total_v = real (f_blocks stat * f_frsize stat) / 1024 ^ 3;
          free_v = real (f_bavail stat * f_frsize stat) / 1024 ^ 3;
          used_v = total_v - free_v
      in case percent_used used_v total_v of
           Inl e \<Rightarrow> Inl e
         | Inr p \<Rightarrow>
             Inr \<lparr>total_gb = py_round total_v 2, used = py_round used_v 2,
                  free = py_round free_v 2, percent = py_round p 2, mounted = True\<rparr>)"

definition unmounted :: ssd_info where
  "unmounted = \<lparr>total_gb = 0, used = 0, free = 0, percent = 0, mounted = False\<rparr>"

text \<open>The argument is what \<open>os.statvfs(SSD_MOUNT_PATH)\<close> does: raise or return.\<close>

definition get_ssd_info :: "exn + statvfs \<Rightarrow> exn + ssd_info" where
  "get_ssd_info statvfs_result =
     try_except
       (case statvfs_result of Inl e \<Rightarrow> Inl e | Inr stat \<Rightarrow> ssd_info_body stat)
       (\<lambda>e. Inr unmounted)"

subsection \<open>Storage inspector: \<open>get_recording_list\<close>\<close>

text \<open>
  One name of \<open>os.listdir\<close> with what the two queries on it do:
  \<open>os.path.getsize\<close> returns bytes or raises, and
  \<open>datetime.fromtimestamp(os.path.getmtime(...))\<close> returns the local time of the
  last modification or raises.
\<close>

record dir_entry =
  e_name :: string
  e_size :: "exn + nat"
  e_mtime :: "exn + datetime"

record recording_file =
  name :: string
  size_mb :: real
  date :: string

definition endswith :: "string \<Rightarrow> string \<Rightarrow> bool" where
  "endswith s suf = (length suf \<le> length s \<and> drop (length s - length suf) s = suf)"

definition is_video :: "string \<Rightarrow> bool" where
  "is_video filename = (endswith filename ''.avi'' \<or> endswith filename ''.mp4'')"

fun collect :: "dir_entry list \<Rightarrow> recording_file list \<Rightarrow> exn + recording_file list" where
  "collect [] files = Inr files"
| "collect (e # es) files =
     (if is_video (e_name e) then
        (case e_size e of
           Inl x \<Rightarrow> Inl x
         | Inr bytes \<Rightarrow>
             (case e_mtime e of
                Inl x \<Rightarrow> Inl x
              | Inr mtime \<Rightarrow>
                  collect es
                    (files @ [\<lparr>name = e_name e,
                               size_mb = py_round (real bytes / 1024 ^ 2) 2,
                               date = strftime mtime ''%Y-%m-%d %H:%M:%S''\<rparr>])))
      else collect es files)"

text \<open>
  \<open>sorted(xs, key=k, reverse=True)\<close>: a stable sort that keeps elements with equal
  keys in their original order also when reversed (the list is reversed, sorted
  ascending and stably, and reversed again).
\<close>

definition sorted_reverse :: "('a \<Rightarrow> 'k::linorder) \<Rightarrow> 'a list \<Rightarrow> 'a list" where
  "sorted_reverse k xs = rev (sort_key k (rev xs))"

definition get_recording_list :: "exn + dir_entry list \<Rightarrow> exn + recording_file list" where
  "get_recording_list listdir_result =
     try_except
       (case listdir_result of
          Inl e \<Rightarrow> Inl e
        | Inr entries \<Rightarrow>
            (case collect entries [] of
               Inl e \<Rightarrow> Inl e
             | Inr files \<Rightarrow> Inr (sorted_reverse date files)))
       (\<lambda>e. Inr [])"

text \<open>
  What the listing is made of, in the words of the specification: the entries with a
  recognised extension, what the two queries return for each of them, the record
  reported for a file, and the order of the listing.
\<close>

record file_stat =
  st_name :: string
  st_size :: nat
  st_mtime :: datetime

definition stat_ok :: "dir_entry \<Rightarrow> file_stat option" where
  "stat_ok e =
     (case e_size e of
        Inl x \<Rightarrow> None
      | Inr bytes \<Rightarrow>
          (case e_mtime e of
             Inl x \<Rightarrow> None
           | Inr mtime \<Rightarrow> Some \<lparr>st_name = e_name e, st_size = bytes, st_mtime = mtime\<rparr>))"

definition file_entry :: "file_stat \<Rightarrow> recording_file" where
  "file_entry f =
     \<lparr>name = st_name f, size_mb = py_round (real (st_size f) / 1024 ^ 2) 2,
      date = strftime (st_mtime f) ''%Y-%m-%d %H:%M:%S''\<rparr>"

definition video_entries :: "dir_entry list \<Rightarrow> dir_entry list" where
  "video_entries entries = filter (\<lambda>e. is_video (e_name e)) entries"

definition video_stats :: "dir_entry list \<Rightarrow> file_stat list" where
  "video_stats entries = List.map_filter stat_ok (video_entries entries)"

definition listing_order :: "dir_entry list \<Rightarrow> file_stat list" where
  "listing_order entries = sorted_reverse (\<lambda>f. date (file_entry f)) (video_stats entries)"

text \<open>The modification time of a file at the granularity the listing reports.\<close>

definition to_seconds :: "datetime \<Rightarrow> nat \<times> nat \<times> nat \<times> nat \<times> nat \<times> nat" where
  "to_seconds d = (year d, month d, day d, hour d, minute d, second d)"

definition listing_names :: "exn + recording_file list \<Rightarrow> string list" where
  "listing_names r = (case r of Inl e \<Rightarrow> [] | Inr files \<Rightarrow> map name files)"

subsection \<open>Telemetry sampler: \<open>read_battery_data\<close>\<close>

text \<open>
  One iteration of the simulated loop. The loop reads \<open>time.time()\<close> twice, once
  for the voltage and once for the current; \<open>t1\<close> and \<open>t2\<close> are the two readings.
\<close>

definition simulate :: "real \<Rightarrow> real \<Rightarrow> dvr_state \<Rightarrow> dvr_state" where
  "simulate t1 t2 s =
     (let s1 = s\<lparr>current_voltage := 12.0 + py_mod t1 10 / 10\<rparr>;
          s2 = s1\<lparr>current_current := 0.5 + py_mod t2 5 / 10\<rparr>
      in s2\<lparr>current_power := current_voltage s2 * current_current s2\<rparr>)"

text \<open>
  The loops of the sampler never end. The model runs them over the clock readings, or
  the sensor readings, of any finite number of iterations and returns the state reached.
\<close>

fun simulated_loop :: "(real \<times> real) list \<Rightarrow> dvr_state \<Rightarrow> dvr_state" where
  "simulated_loop [] s = s"
| "simulated_loop ((t1, t2) # ts) s = simulated_loop ts (simulate t1 t2 s)"

text \<open>
  What the three calls on the sensor do in one iteration, if they are reached:
  \<open>ina.voltage()\<close> in volts, \<open>ina.current()\<close> in milliamps, \<open>ina.power()\<close> in
  milliwatts, or the exception raised.
\<close>

record sensor_sample =
  ina_voltage :: "exn + real"
  ina_current :: "exn + real"
  ina_power :: "exn + real"

text \<open>
  The body of the inner \<open>try\<close>: three assignments in sequence. An exception leaves the
  body with the assignments made so far in place.
\<close>

definition sample_body :: "sensor_sample \<Rightarrow> dvr_state \<Rightarrow> exn option \<times> dvr_state" where
  "sample_body x s =
     (case ina_voltage x of
        Inl e \<Rightarrow> (Some e, s)
      | Inr v \<Rightarrow>
          let s1 = s\<lparr>current_voltage := v\<rparr>
          in (case ina_current x of
                Inl e \<Rightarrow> (Some e, s1)
              | Inr c \<Rightarrow>
                  let s2 = s1\<lparr>current_current := c / 1000\<rparr>
                  in (case ina_power x of
                        Inl e \<Rightarrow> (Some e, s2)
                      | Inr p \<Rightarrow> (None, s2\<lparr>current_power := p / 1000\<rparr>))))"

text \<open>The two \<open>except\<close> clauses print a line each; nothing is raised further.\<close>

definition sample_step :: "sensor_sample \<Rightarrow> dvr_state \<Rightarrow> string option \<times> dvr_state" where
  "sample_step x s =
     (case sample_body x s of
        (None, s') \<Rightarrow> (None, s')
      | (Some e, s') \<Rightarrow>
          (if e = DeviceRangeError then (Some ''Current overflow'', s')
           else (Some ''Sensor read error'', s')))"

fun sensor_loop :: "sensor_sample list \<Rightarrow> dvr_state \<Rightarrow> string option list \<times> dvr_state" where
  "sensor_loop [] s = ([], s)"
| "sensor_loop (x # xs) s =
     (let (l, s') = sample_step x s; (ls, s'') = sensor_loop xs s' in (l # ls, s''))"

text \<open>
  \<open>ina219_available\<close> is the flag set at import, \<open>init\<close> is what constructing and
  configuring the sensor does, \<open>clock\<close> and \<open>samples\<close> feed the loop that runs.
\<close>

definition read_battery_data ::
  "bool \<Rightarrow> exn + unit \<Rightarrow> (real \<times> real) list \<Rightarrow> sensor_sample list \<Rightarrow> dvr_state \<Rightarrow> dvr_state" where
  "read_battery_data ina219_available init clock samples s =
     (if \<not> ina219_available then simulated_loop clock s
      else (case init of
              Inl e \<Rightarrow> simulated_loop clock s
            | Inr u \<Rightarrow> snd (sensor_loop samples s)))"

subsection \<open>Frame source: \<open>CameraStream\<close>\<close>

text \<open>
  Frames are kept abstract. \<open>annotate\<close> stands for the overlays \<open>get_frame\<close> draws
  (timestamp, battery line, recording indicator); the argument of \<open>get_frame\<close> is what
  \<open>camera.read()\<close> returns.
\<close>

definition get_frame :: "('f \<Rightarrow> 'f) \<Rightarrow> bool \<times> 'f \<Rightarrow> 'f option" where
  "get_frame annotate r = (case r of (success, frame) \<Rightarrow>
     if \<not> success then None else Some (annotate frame))"

definition CRLF :: string where
  "CRLF = [CHR 0x0D, CHR 0x0A]"

definition part :: "string \<Rightarrow> string" where
  "part frame_bytes =
     ''--frame'' @ CRLF @ ''Content-Type: image/jpeg'' @ CRLF @ CRLF @ frame_bytes @ CRLF"

text \<open>
  The generator, run over the results of the \<open>camera.read()\<close> calls it makes. It
  returns the parts yielded and whether the generator has ended or waits for the next
  read. \<open>imencode\<close> returns the flag and the buffer of \<open>cv2.imencode\<close>.
\<close>

datatype gen_status = Running | Ended

fun generate_frames ::
  "('f \<Rightarrow> 'f) \<Rightarrow> ('f \<Rightarrow> bool \<times> string) \<Rightarrow> (bool \<times> 'f) list \<Rightarrow> string list \<times> gen_status" where
  "generate_frames annotate imencode [] = ([], Running)"
| "generate_frames annotate imencode (r # rs) =
     (case get_frame annotate r of
        None \<Rightarrow> ([], Ended)
      | Some frame \<Rightarrow>
          (case imencode frame of (ret, buffer) \<Rightarrow>
             if \<not> ret then generate_frames annotate imencode rs
             else (case generate_frames annotate imencode rs of
                     (ys, st) \<Rightarrow> (part buffer # ys, st))))"

text \<open>The frames a sequence of reads captures before the first failed read.\<close>

definition captured :: "('f \<Rightarrow> 'f) \<Rightarrow> (bool \<times> 'f) list \<Rightarrow> 'f list" where
  "captured annotate rs = map (\<lambda>r. annotate (snd r)) (takeWhile fst rs)"

subsection \<open>Statistics route: \<open>get_stats\<close>\<close>

definition ssd_json :: "ssd_info \<Rightarrow> json" where
  "ssd_json i =
     JObj [(''total'', JNum (total_gb i)), (''used'', JNum (used i)), (''free'', JNum (free i)),
           (''percent'', JNum (percent i)), (''mounted'', JBool (mounted i))]"

definition get_stats :: "exn + statvfs \<Rightarrow> real \<Rightarrow> dvr_state \<Rightarrow> exn + response" where
  "get_stats statvfs_result now s =
     (case get_ssd_info statvfs_result of
        Inl e \<Rightarrow> Inl e
      | Inr ssd \<Rightarrow>
          Inr \<lparr>body = [(''voltage'', JNum (py_round (current_voltage s) 2)),
                       (''current'', JNum (py_round (current_current s) 3)),
                       (''power'', JNum (py_round (current_power s) 2)),
                       (''recording'', JBool (recording s)),
                       (''filename'', json_opt_str (recording_filename s)),
                       (''storage'', ssd_json ssd),
                       (''uptime'', JNum (py_round ((now - system_start_time s) / 60) 1))],
               code = 200\<rparr>)"

text \<open>Looking into the JSON body of a response that was returned.\<close>

definition stats_has_field :: "exn + response \<Rightarrow> string \<Rightarrow> bool" where
  "stats_has_field r k = (case r of Inl e \<Rightarrow> False | Inr resp \<Rightarrow> has_field resp k)"

definition stats_field :: "exn + response \<Rightarrow> string \<Rightarrow> json option" where
  "stats_field r k = (case r of Inl e \<Rightarrow> None | Inr resp \<Rightarrow> field resp k)"

subsection \<open>Predicates used in the statements\<close>

text \<open>The remembered filename is set exactly when the recording flag is.\<close>

definition session_inv :: "dvr_state \<Rightarrow> bool" where
  "session_inv s = (filename_nonempty s = recording s)"

text \<open>The range of the simulated telemetry.\<close>

definition in_sim_range :: "dvr_state \<Rightarrow> bool" where
  "in_sim_range s =
     (12 \<le> current_voltage s \<and> current_voltage s < 13 \<and>
      0.5 \<le> current_current s \<and> current_current s < 1.0)"

section \<open>Verification\<close>

subsection \<open>Timestamps\<close>

lemma digit_is_digit: "is_digit (digit n)"
  unfolding is_digit_def digit_def by (rule nth_mem) simp

lemma digit_val_lt: "k < 10 \<Longrightarrow> digit_val (''0123456789'' ! k) = k"
proof -
  assume "k < 10"
  then have "k \<in> {0,1,2,3,4,5,6,7,8,9}" by auto
  then show ?thesis
    by (auto simp add: digit_val_def)
qed

lemma digit_val_digit: "digit_val (digit n) = n mod 10"
  unfolding digit_def by (rule digit_val_lt) simp

lemma step10: "10 * (n div (10 * k)) + n div k mod 10 = n div (k::nat)"
proof -
  have "n div (10 * k) = n div k div 10"
    by (simp add: div_mult2_eq mult.commute)
  then show ?thesis by simp
qed

lemma decimal_pad2: "n < 100 \<Longrightarrow> decimal (pad2 n) = n"
  using step10 [of n 1] by (simp add: decimal_def pad2_def digit_val_digit)

lemma decimal_pad4: "n < 10000 \<Longrightarrow> decimal (pad4 n) = n"
  using step10 [of n 1] step10 [of n 10] step10 [of n 100]
  by (simp add: decimal_def pad4_def digit_val_digit)

lemma length_pad2 [simp]: "length (pad2 n) = 2"
  by (simp add: pad2_def)

lemma length_pad4 [simp]: "length (pad4 n) = 4"
  by (simp add: pad4_def)

lemma strftime_compact:
  "strftime d ''%Y%m%d_%H%M%S'' =
     pad4 (year d) @ pad2 (month d) @ pad2 (day d) @ ''_'' @
     pad2 (hour d) @ pad2 (minute d) @ pad2 (second d)"
  by (simp add: directive_def)

lemma is_stamp_strftime: "is_stamp (strftime d ''%Y%m%d_%H%M%S'')"
  unfolding strftime_compact
  by (simp add: is_stamp_def pad2_def pad4_def digit_is_digit)

lemma stamp_fields_strftime:
  "valid_datetime d \<Longrightarrow> stamp_fields (strftime d ''%Y%m%d_%H%M%S'') =
     (year d, month d, day d, hour d, minute d, second d)"
  unfolding strftime_compact
  by (simp add: stamp_fields_def valid_datetime_def decimal_pad2 decimal_pad4)

subsection \<open>Recording controller\<close>

lemma start_idle:
  "\<not> recording s \<Longrightarrow> start_recording now s =
     (\<lparr>body = [(''message'', JStr (''Recording started: '' @ strftime now ''%Y%m%d_%H%M%S'' @ ''.avi'')),
               (''status'', JStr ''success''),
               (''filename'', JStr (strftime now ''%Y%m%d_%H%M%S'' @ ''.avi''))],
       code = 200\<rparr>,
      s\<lparr>recording := True,
        recording_filename := Some (strftime now ''%Y%m%d_%H%M%S'' @ ''.avi''),
        started_threads :=
          path_join SSD_MOUNT_PATH (strftime now ''%Y%m%d_%H%M%S'' @ ''.avi'') # started_threads s\<rparr>)"
  by (simp add: start_recording_def Let_def del: strftime.simps)

lemma start_busy:
  "recording s \<Longrightarrow> start_recording now s =
     (\<lparr>body = [(''message'', JStr ''Already recording''), (''status'', JStr ''error'')],
       code = 400\<rparr>, s)"
  by (simp add: start_recording_def)

text \<open>
  Claim C1. A start command in the Idle state sets the state to Recording and answers
  200 with status \<open>success\<close> and a filename that is a \<open>YYYYMMDD_HHMMSS\<close> stamp of the
  current time followed by \<open>.avi\<close>; the same filename is remembered. A second start
  command, at any later time, answers 400 with the \<open>Already recording\<close> error and leaves
  the whole state, the remembered filename included, as it was.
\<close>

theorem start_recording_idle_then_again:
  assumes "\<not> recording s" and "valid_datetime now"
  shows "\<exists>stamp.
      is_stamp stamp \<and>
      stamp_fields stamp = (year now, month now, day now, hour now, minute now, second now) \<and>
      recording (snd (start_recording now s)) \<and>
      recording_filename (snd (start_recording now s)) = Some (stamp @ ''.avi'') \<and>
      code (fst (start_recording now s)) = 200 \<and>
      field (fst (start_recording now s)) ''status'' = Some (JStr ''success'') \<and>
      field (fst (start_recording now s)) ''filename'' = Some (JStr (stamp @ ''.avi'')) \<and>
      start_recording later (snd (start_recording now s)) =
        (\<lparr>body = [(''message'', JStr ''Already recording''), (''status'', JStr ''error'')],
          code = 400\<rparr>, snd (start_recording now s))"
proof -
  let ?stamp = "strftime now ''%Y%m%d_%H%M%S''"
  have "recording (snd (start_recording now s))"
    using assms(1) by (simp add: start_idle del: strftime.simps)
  then have again: "start_recording later (snd (start_recording now s)) =
        (\<lparr>body = [(''message'', JStr ''Already recording''), (''status'', JStr ''error'')],
          code = 400\<rparr>, snd (start_recording now s))"
    by (rule start_busy)
  show ?thesis
    apply (rule exI [of _ ?stamp])
    using assms again
    by (simp add: start_idle is_stamp_strftime stamp_fields_strftime field_def del: strftime.simps)
qed

theorem start_recording_idle_then_again_witness:
  "\<not> recording (initial_state 0) \<and>
   valid_datetime \<lparr>year = 2024, month = 1, day = 15, hour = 10, minute = 30, second = 45, microsecond = 0\<rparr> \<and>
   recording_filename (snd (start_recording
       \<lparr>year = 2024, month = 1, day = 15, hour = 10, minute = 30, second = 45, microsecond = 0\<rparr>
       (initial_state 0))) = Some ''20240115_103045.avi'' \<and>
   code (fst (start_recording
       \<lparr>year = 2024, month = 1, day = 15, hour = 10, minute = 30, second = 46, microsecond = 0\<rparr>
       (snd (start_recording
         \<lparr>year = 2024, month = 1, day = 15, hour = 10, minute = 30, second = 45, microsecond = 0\<rparr>
         (initial_state 0))))) = 400"
  using start_recording_idle_then_again [of "initial_state 0"
      "\<lparr>year = 2024, month = 1, day = 15, hour = 10, minute = 30, second = 45, microsecond = 0\<rparr>"
      "\<lparr>year = 2024, month = 1, day = 15, hour = 10, minute = 30, second = 46, microsecond = 0\<rparr>"]
  by (simp add: initial_state_def valid_datetime_def start_recording_def Let_def directive_def
      pad2_def pad4_def digit_def)

text \<open>
  Claim C2. A stop command in the Idle state answers 400 with the
  \<open>Not currently recording\<close> error and returns the state unchanged; a stop command in
  the Recording state sets the state to Idle, clears the remembered filename and answers
  200 with status \<open>success\<close>.
\<close>

theorem stop_recording_cases:
  "(\<not> recording s \<longrightarrow>
      stop_recording s =
        (\<lparr>body = [(''message'', JStr ''Not currently recording''), (''status'', JStr ''error'')],
          code = 400\<rparr>, s)) \<and>
   (recording s \<longrightarrow>
      \<not> recording (snd (stop_recording s)) \<and>
      recording_filename (snd (stop_recording s)) = None \<and>
      code (fst (stop_recording s)) = 200 \<and>
      field (fst (stop_recording s)) ''status'' = Some (JStr ''success''))"
  by (simp add: stop_recording_def field_def Let_def)

theorem stop_recording_cases_witness:
  "\<not> recording (initial_state 0) \<and>
   stop_recording (initial_state 0) =
     (\<lparr>body = [(''message'', JStr ''Not currently recording''), (''status'', JStr ''error'')],
       code = 400\<rparr>, initial_state 0) \<and>
   recording ((initial_state 0)\<lparr>recording := True, recording_filename := Some ''20240115_103045.avi''\<rparr>) \<and>
   recording_filename (snd (stop_recording
     ((initial_state 0)\<lparr>recording := True, recording_filename := Some ''20240115_103045.avi''\<rparr>))) = None"
  using stop_recording_cases [of "initial_state 0"]
    stop_recording_cases [of "(initial_state 0)\<lparr>recording := True, recording_filename := Some ''20240115_103045.avi''\<rparr>"]
  by (simp add: initial_state_def)

lemma run_Cons:
  "run (c # cs) s =
     ((c, fst (handle c s)) # fst (run cs (snd (handle c s))), snd (run cs (snd (handle c s))))"
  by (simp add: case_prod_unfold Let_def)

lemma active_sessions_Nil: "active_sessions [] = 0"
  by (simp add: active_sessions_def sessions_opened_def sessions_closed_def)

lemma active_sessions_Cons:
  "active_sessions ((c, r) # tr) =
     (if accepted r then (if is_start c then 1 else - 1) else 0) + active_sessions tr"
  by (simp add: active_sessions_def sessions_opened_def sessions_closed_def)

lemma handle_session:
  assumes "session_inv s"
  shows "session_inv (snd (handle c s))"
    and "(if accepted (fst (handle c s)) then (if is_start c then 1 else - 1) else 0) =
           (of_bool (recording (snd (handle c s))) :: int) - of_bool (recording s)"
  using assms
  by (cases c; simp add: session_inv_def filename_nonempty_def start_recording_def
        stop_recording_def accepted_def is_start_def Let_def del: strftime.simps)+

lemma run_session:
  "session_inv s \<Longrightarrow>
     session_inv (snd (run cs s)) \<and>
     active_sessions (fst (run cs s)) = of_bool (recording (snd (run cs s))) - of_bool (recording s)"
proof (induction cs arbitrary: s)
  case Nil
  then show ?case by (simp add: active_sessions_Nil)
next
  case (Cons c cs)
  from Cons.prems have inv': "session_inv (snd (handle c s))"
    by (rule handle_session(1))
  from Cons.IH [OF inv'] handle_session(2) [OF Cons.prems, of c]
  show ?case
    by (simp only: run_Cons fst_conv snd_conv active_sessions_Cons) simp
qed

lemma session_inv_initial: "session_inv (initial_state t0)"
  by (simp add: session_inv_def filename_nonempty_def initial_state_def)

text \<open>
  Claim C3. After any sequence of start and stop commands from the initial state, the
  number of active recording sessions (accepted starts not yet followed by an accepted
  stop) is 0 or 1, it is 1 exactly when the state is Recording, and the remembered
  filename is set and non-empty exactly when the state is Recording.
\<close>

theorem one_session_invariant:
  "active_sessions (fst (run cs (initial_state t0))) \<in> {0, 1} \<and>
   (active_sessions (fst (run cs (initial_state t0))) = 1) = recording (snd (run cs (initial_state t0))) \<and>
   filename_nonempty (snd (run cs (initial_state t0))) = recording (snd (run cs (initial_state t0)))"
  using run_session [OF session_inv_initial, of cs t0]
  by (simp add: session_inv_def initial_state_def)

theorem one_session_invariant_witness:
  "active_sessions (fst (run [Start \<lparr>year = 2024, month = 1, day = 15, hour = 10, minute = 30, second = 45, microsecond = 0\<rparr>,
       Start \<lparr>year = 2024, month = 1, day = 15, hour = 10, minute = 30, second = 46, microsecond = 0\<rparr>,
       Stop, Stop,
       Start \<lparr>year = 2024, month = 1, day = 15, hour = 10, minute = 31, second = 0, microsecond = 0\<rparr>]
      (initial_state 0))) = 1 \<and>
   recording_filename (snd (run [Start \<lparr>year = 2024, month = 1, day = 15, hour = 10, minute = 30, second = 45, microsecond = 0\<rparr>,
       Start \<lparr>year = 2024, month = 1, day = 15, hour = 10, minute = 30, second = 46, microsecond = 0\<rparr>,
       Stop, Stop,
       Start \<lparr>year = 2024, month = 1, day = 15, hour = 10, minute = 31, second = 0, microsecond = 0\<rparr>]
      (initial_state 0))) = Some ''20240115_103100.avi''"
  using one_session_invariant [of "[Start \<lparr>year = 2024, month = 1, day = 15, hour = 10, minute = 30, second = 45, microsecond = 0\<rparr>,
       Start \<lparr>year = 2024, month = 1, day = 15, hour = 10, minute = 30, second = 46, microsecond = 0\<rparr>,
       Stop, Stop,
       Start \<lparr>year = 2024, month = 1, day = 15, hour = 10, minute = 31, second = 0, microsecond = 0\<rparr>]" 0]
  by (simp add: initial_state_def start_recording_def stop_recording_def Let_def directive_def
      pad2_def pad4_def digit_def active_sessions_def sessions_opened_def sessions_closed_def
      accepted_def is_start_def)

subsection \<open>Simulated telemetry\<close>

lemma py_mod_range: "0 < y \<Longrightarrow> 0 \<le> py_mod x y \<and> py_mod x y < y"
proof -
  assume y: "0 < y"
  have xy: "y * (x / y) = x" using y by simp
  have 1: "of_int \<lfloor>x / y\<rfloor> \<le> x / y" by (rule of_int_floor_le)
  have 2: "x / y < of_int \<lfloor>x / y\<rfloor> + 1" by linarith
  have "y * of_int \<lfloor>x / y\<rfloor> \<le> y * (x / y)"
    by (rule mult_left_mono [OF 1]) (use y in simp)
  moreover have "y * (x / y) < y * (of_int \<lfloor>x / y\<rfloor> + 1)"
    by (rule mult_strict_left_mono [OF 2 y])
  ultimately show ?thesis
    unfolding xy by (simp add: py_mod_def algebra_simps)
qed

lemma simulate_range:
  "12 \<le> current_voltage (simulate t1 t2 s) \<and> current_voltage (simulate t1 t2 s) < 13 \<and>
   1 / 2 \<le> current_current (simulate t1 t2 s) \<and> current_current (simulate t1 t2 s) < 1 \<and>
   current_power (simulate t1 t2 s) =
     current_voltage (simulate t1 t2 s) * current_current (simulate t1 t2 s)"
  using py_mod_range [of 10 t1] py_mod_range [of 5 t2]
  by (simp add: simulate_def Let_def)

lemma simulated_loop_snoc:
  "simulated_loop (ts @ [(t1, t2)]) s = simulate t1 t2 (simulated_loop ts s)"
  by (induction ts s rule: simulated_loop.induct) simp_all

lemma simulated_loop_range: "clock \<noteq> [] \<Longrightarrow> in_sim_range (simulated_loop clock s)"
proof (cases clock rule: rev_cases)
  case Nil
  assume "clock \<noteq> []"
  with Nil show ?thesis by simp
next
  case (snoc ts t)
  obtain t1 t2 where "t = (t1, t2)" by (cases t)
  with snoc show ?thesis
    using simulate_range [of t1 t2 "simulated_loop ts s"]
    by (simp add: simulated_loop_snoc in_sim_range_def)
qed

text \<open>
  Claim C4. On the simulated path, taken when the sensor library is missing or the
  sensor fails to initialise, the reading published after any sample, whatever the clock
  shows, has its voltage in [12.0, 13.0) and its current in [0.5, 1.0).
\<close>

theorem simulated_telemetry_range:
  assumes "\<not> ina219_available \<or> init = Inl e" and "clock \<noteq> []"
  shows "in_sim_range (read_battery_data ina219_available init clock samples s)"
  using assms simulated_loop_range [of clock s]
  by (auto simp add: read_battery_data_def)

theorem simulated_telemetry_range_witness:
  "[(1700000003.25 :: real, 1700000003.5 :: real)] \<noteq> [] \<and>
   in_sim_range
     (read_battery_data False (Inr ()) [(1700000003.25, 1700000003.5)] [] (initial_state 0)) \<and>
   in_sim_range
     (read_battery_data True (Inl OSError) [(1700000003.25, 1700000003.5)] [] (initial_state 0))"
  using simulated_telemetry_range [of False "Inr ()" OSError
      "[(1700000003.25, 1700000003.5)]" "[]" "initial_state 0"]
    simulated_telemetry_range [of True "Inl OSError" OSError
      "[(1700000003.25, 1700000003.5)]" "[]" "initial_state 0"]
  by simp

subsection \<open>Storage snapshot\<close>

lemma percent_used_total:
  "percent_used u t = Inr (if 0 < t then u / t * 100 else 0)"
  by (simp add: percent_used_def truediv_def)

lemma py_round_zero: "py_round 0 n = 0"
  by (simp add: py_round_def round_half_even_def)

lemma ssd_info_body_returns:
  "\<exists>info. ssd_info_body stat = Inr info \<and> mounted info \<and>
     (f_blocks stat * f_frsize stat = 0 \<longrightarrow> percent info = 0)"
  unfolding ssd_info_body_def Let_def percent_used_total
  by (simp add: py_round_zero)

text \<open>
  Claim C7. Whatever exception \<open>os.statvfs\<close> raises on the storage path, the snapshot
  query returns total 0, used 0, free 0, percent 0 and mounted false; and the query
  returns a value, never an exception, on every outcome of \<open>os.statvfs\<close>.
\<close>

theorem get_ssd_info_failure:
  "get_ssd_info (Inl e) =
     Inr \<lparr>total_gb = 0, used = 0, free = 0, percent = 0, mounted = False\<rparr> \<and>
   (\<exists>info. get_ssd_info r = Inr info)"
proof (cases r)
  case (Inl x)
  then show ?thesis
    by (simp add: get_ssd_info_def try_except_def unmounted_def)
next
  case (Inr stat)
  with ssd_info_body_returns [of stat] show ?thesis
    by (auto simp add: get_ssd_info_def try_except_def unmounted_def)
qed

theorem get_ssd_info_failure_witness:
  "get_ssd_info (Inl OSError) =
     Inr \<lparr>total_gb = 0, used = 0, free = 0, percent = 0, mounted = False\<rparr> \<and>
   get_ssd_info (Inr \<lparr>f_blocks = 0, f_frsize = 4096, f_bavail = 0\<rparr>) =
     Inr \<lparr>total_gb = 0, used = 0, free = 0, percent = 0, mounted = True\<rparr>"
  using get_ssd_info_failure [of OSError "Inr \<lparr>f_blocks = 0, f_frsize = 4096, f_bavail = 0\<rparr>"]
  by (simp add: get_ssd_info_def try_except_def ssd_info_body_def percent_used_total
      py_round_zero)

text \<open>
  Claim C10. The percent figure divides used by total only when total is strictly
  positive and is 0 otherwise, so the division never raises; on every result of
  \<open>os.statvfs\<close> the snapshot is computed without an exception (it is reported as
  mounted), and with a total of zero its percent figure is 0.
\<close>

theorem percent_never_divides_by_zero:
  "percent_used u t = Inr (if 0 < t then u / t * 100 else 0) \<and>
   (\<exists>info. get_ssd_info (Inr stat) = Inr info \<and> mounted info \<and>
     (f_blocks stat * f_frsize stat = 0 \<longrightarrow> percent info = 0))"
  using ssd_info_body_returns [of stat]
  by (auto simp add: get_ssd_info_def try_except_def percent_used_total)

theorem percent_never_divides_by_zero_witness:
  "f_blocks \<lparr>f_blocks = 0, f_frsize = 4096, f_bavail = 0\<rparr> *
     f_frsize \<lparr>f_blocks = 0, f_frsize = 4096, f_bavail = 0\<rparr> = 0 \<and>
   percent_used 0 0 = Inr 0 \<and>
   get_ssd_info (Inr \<lparr>f_blocks = 0, f_frsize = 4096, f_bavail = 0\<rparr>) =
     Inr \<lparr>total_gb = 0, used = 0, free = 0, percent = 0, mounted = True\<rparr>"
  using percent_never_divides_by_zero [of 0 0 "\<lparr>f_blocks = 0, f_frsize = 4096, f_bavail = 0\<rparr>"]
  by (simp add: get_ssd_info_def try_except_def ssd_info_body_def percent_used_total
      py_round_zero)

subsection \<open>Sensor range errors\<close>

lemma sensor_loop_Cons:
  "sensor_loop (x # xs) s =
     (fst (sample_step x s) # fst (sensor_loop xs (snd (sample_step x s))),
      snd (sensor_loop xs (snd (sample_step x s))))"
  by (simp add: case_prod_unfold Let_def)

text \<open>
  Claim C5, as stated, fails: when \<open>ina.voltage()\<close> returns and \<open>ina.current()\<close>
  then raises \<open>DeviceRangeError\<close>, the error is logged but the published voltage has
  already been replaced (here 0 becomes 12.5).
\<close>

theorem range_error_counterexample:
  "fst (sample_step
          \<lparr>ina_voltage = Inr 12.5, ina_current = Inl DeviceRangeError, ina_power = Inr 6000\<rparr>
          (initial_state 0)) = Some ''Current overflow'' \<and>
   current_voltage (initial_state 0) = 0 \<and>
   current_voltage (snd (sample_step
       \<lparr>ina_voltage = Inr 12.5, ina_current = Inl DeviceRangeError, ina_power = Inr 6000\<rparr>
       (initial_state 0))) = 12.5"
  by (simp add: sample_step_def sample_body_def initial_state_def)

text \<open>
  Claim C5, amended. When a sensor call raises \<open>DeviceRangeError\<close> during a sample, the
  sampler logs the overflow and the loop goes on with the next sample. The field whose
  call raised and the fields after it keep their previous values, and the fields assigned
  before it hold the new values: nothing changes when \<open>voltage()\<close> raises, the voltage
  alone is updated when \<open>current()\<close> raises, voltage and current are updated when
  \<open>power()\<close> raises; the power is never updated for that sample.
\<close>

theorem range_error_partial_update:
  assumes "fst (sample_body x s) = Some DeviceRangeError"
  shows "fst (sample_step x s) = Some ''Current overflow'' \<and>
     current_power (snd (sample_step x s)) = current_power s \<and>
     (ina_voltage x = Inl DeviceRangeError \<longrightarrow> snd (sample_step x s) = s) \<and>
     (\<forall>v. ina_voltage x = Inr v \<and> ina_current x = Inl DeviceRangeError \<longrightarrow>
        snd (sample_step x s) = s\<lparr>current_voltage := v\<rparr>) \<and>
     (\<forall>v c. ina_voltage x = Inr v \<and> ina_current x = Inr c \<longrightarrow>
        ina_power x = Inl DeviceRangeError \<and>
        snd (sample_step x s) = s\<lparr>current_voltage := v, current_current := c / 1000\<rparr>) \<and>
     sensor_loop (x # xs) s =
       (Some ''Current overflow'' # fst (sensor_loop xs (snd (sample_step x s))),
        snd (sensor_loop xs (snd (sample_step x s))))"
  using assms unfolding sensor_loop_Cons
  by (auto simp add: sample_step_def sample_body_def Let_def split: sum.splits)

theorem range_error_partial_update_witness:
  "fst (sample_body
          \<lparr>ina_voltage = Inr 12.5, ina_current = Inl DeviceRangeError, ina_power = Inr 6000\<rparr>
          (initial_state 0)) = Some DeviceRangeError \<and>
   snd (sample_step
          \<lparr>ina_voltage = Inr 12.5, ina_current = Inl DeviceRangeError, ina_power = Inr 6000\<rparr>
          (initial_state 0)) = (initial_state 0)\<lparr>current_voltage := 12.5\<rparr> \<and>
   fst (sample_body
          \<lparr>ina_voltage = Inl DeviceRangeError, ina_current = Inr 500, ina_power = Inr 6000\<rparr>
          (initial_state 0)) = Some DeviceRangeError \<and>
   snd (sample_step
          \<lparr>ina_voltage = Inl DeviceRangeError, ina_current = Inr 500, ina_power = Inr 6000\<rparr>
          (initial_state 0)) = initial_state 0"
  using range_error_partial_update [of
      "\<lparr>ina_voltage = Inr 12.5, ina_current = Inl DeviceRangeError, ina_power = Inr 6000\<rparr>"
      "initial_state 0" "[]"]
    range_error_partial_update [of
      "\<lparr>ina_voltage = Inl DeviceRangeError, ina_current = Inr 500, ina_power = Inr 6000\<rparr>"
      "initial_state 0" "[]"]
  by (simp add: sample_body_def)

subsection \<open>The filename in the statistics\<close>

lemma get_ssd_info_returns: "\<exists>info. get_ssd_info r = Inr info"
proof (cases r)
  case (Inl x)
  then show ?thesis
    by (simp add: get_ssd_info_def try_except_def)
next
  case (Inr stat)
  with ssd_info_body_returns [of stat] show ?thesis
    by (auto simp add: get_ssd_info_def try_except_def)
qed

lemma get_stats_filename:
  "stats_has_field (get_stats fs now s) ''filename'' \<and>
   stats_field (get_stats fs now s) ''filename'' = Some (json_opt_str (recording_filename s))"
proof -
  obtain info where "get_ssd_info fs = Inr info"
    using get_ssd_info_returns by blast
  then show ?thesis
    by (simp add: get_stats_def stats_has_field_def stats_field_def has_field_def field_def)
qed

lemma run_no_start_idle:
  "\<not> recording s \<Longrightarrow> \<not> list_ex is_start cs \<Longrightarrow> snd (run cs s) = s"
proof (induction cs)
  case Nil
  then show ?case by simp
next
  case (Cons c cs)
  then have "c = Stop" by (cases c) (simp_all add: is_start_def)
  with Cons show ?case
    by (simp add: stop_recording_def case_prod_unfold)
qed

lemma simulated_loop_filename:
  "recording_filename (simulated_loop clock s) = recording_filename s"
  by (induction clock s rule: simulated_loop.induct) (simp_all add: simulate_def Let_def)

lemma sample_step_filename:
  "recording_filename (snd (sample_step x s)) = recording_filename s"
  by (simp add: sample_step_def sample_body_def Let_def split: sum.splits)

lemma sensor_loop_filename:
  "recording_filename (snd (sensor_loop samples s)) = recording_filename s"
  by (induction samples arbitrary: s)
    (simp_all add: sensor_loop_Cons sample_step_filename del: sensor_loop.simps(2))

lemma read_battery_data_filename:
  "recording_filename (read_battery_data av init clock samples s) = recording_filename s"
  by (simp add: read_battery_data_def simulated_loop_filename sensor_loop_filename
      split: sum.splits)

text \<open>
  Claim C6, as stated, fails: after a start and a stop the body of the statistics
  response still has the key \<open>filename\<close>.
\<close>

theorem stats_filename_counterexample:
  "stats_has_field
     (get_stats (Inl OSError) 60
        (snd (run [Start \<lparr>year = 2024, month = 1, day = 15, hour = 10, minute = 30,
                          second = 45, microsecond = 0\<rparr>, Stop]
               (initial_state 0))))
     ''filename''"
  by (simp add: get_stats_filename)

text \<open>
  Claim C6, amended. After a stop command is accepted, the \<open>filename\<close> field is present
  with the value \<open>null\<close> in the body of every statistics response, whatever further stop
  commands arrive and whatever the telemetry sampler publishes, until the next start
  command; after that start the field holds the new filename.
\<close>

theorem stats_filename_null_after_stop:
  assumes "recording s" and "\<not> list_ex is_start cs"
  shows "stats_has_field (get_stats fs now (snd (run cs (snd (stop_recording s))))) ''filename'' \<and>
     stats_field (get_stats fs now (snd (run cs (snd (stop_recording s))))) ''filename'' =
       Some JNull \<and>
     stats_field (get_stats fs now
         (read_battery_data av init clock samples (snd (run cs (snd (stop_recording s))))))
       ''filename'' = Some JNull \<and>
     stats_field (get_stats fs now
         (snd (start_recording t (snd (run cs (snd (stop_recording s))))))) ''filename'' =
       Some (JStr (strftime t ''%Y%m%d_%H%M%S'' @ ''.avi''))"
proof -
  have idle: "\<not> recording (snd (stop_recording s))"
    and none: "recording_filename (snd (stop_recording s)) = None"
    using assms(1) by (simp_all add: stop_recording_def Let_def)
  have same: "snd (run cs (snd (stop_recording s))) = snd (stop_recording s)"
    using idle assms(2) by (rule run_no_start_idle)
  show ?thesis
    unfolding same using idle none
    by (simp add: get_stats_filename read_battery_data_filename json_opt_str_def
        start_recording_def Let_def del: strftime.simps)
qed

theorem stats_filename_null_after_stop_witness:
  "recording ((initial_state 0)\<lparr>recording := True,
      recording_filename := Some ''20240115_103045.avi''\<rparr>) \<and>
   stats_field (get_stats (Inl OSError) 60
      (snd (run [Stop, Stop] (snd (stop_recording
        ((initial_state 0)\<lparr>recording := True,
           recording_filename := Some ''20240115_103045.avi''\<rparr>))))))
      ''filename'' = Some JNull"
  using stats_filename_null_after_stop [of
      "(initial_state 0)\<lparr>recording := True, recording_filename := Some ''20240115_103045.avi''\<rparr>"
      "[Stop, Stop]" "Inl OSError" 60]
  by (simp add: is_start_def)

subsection \<open>Live-stream generator\<close>

lemma get_frame_None: "(get_frame annotate r = None) = (\<not> fst r)"
  by (cases r) (simp add: get_frame_def)

lemma get_frame_Some: "fst r \<Longrightarrow> get_frame annotate r = Some (annotate (snd r))"
  by (cases r) (simp add: get_frame_def)

lemma generate_frames_failed:
  "\<not> fst r \<Longrightarrow> generate_frames annotate imencode (r # rs) = ([], Ended)"
  by (simp add: get_frame_None [THEN iffD2])

lemma generate_frames_skip:
  "fst r \<Longrightarrow> \<not> fst (imencode (annotate (snd r))) \<Longrightarrow>
     generate_frames annotate imencode (r # rs) = generate_frames annotate imencode rs"
  by (simp add: get_frame_Some case_prod_unfold)

lemma generate_frames_yield:
  "fst r \<Longrightarrow> fst (imencode (annotate (snd r))) \<Longrightarrow>
     generate_frames annotate imencode (r # rs) =
       (part (snd (imencode (annotate (snd r)))) # fst (generate_frames annotate imencode rs),
        snd (generate_frames annotate imencode rs))"
  by (simp add: get_frame_Some case_prod_unfold)

lemma generate_frames_parts:
  "fst (generate_frames annotate imencode rs) =
     map (\<lambda>f. part (snd (imencode f))) (filter (\<lambda>f. fst (imencode f)) (captured annotate rs))"
proof (induction rs)
  case Nil
  show ?case by (simp add: captured_def)
next
  case (Cons r rs)
  show ?case
  proof (cases "fst r")
    case False
    then show ?thesis
      by (simp add: generate_frames_failed captured_def del: generate_frames.simps)
  next
    case True
    with Cons show ?thesis
      by (cases "fst (imencode (annotate (snd r)))")
        (simp_all add: generate_frames_skip generate_frames_yield captured_def
          del: generate_frames.simps)
  qed
qed

lemma generate_frames_status:
  "(snd (generate_frames annotate imencode rs) = Ended) = list_ex (\<lambda>r. \<not> fst r) rs"
proof (induction rs)
  case Nil
  show ?case by simp
next
  case (Cons r rs)
  show ?case
  proof (cases "fst r")
    case False
    then show ?thesis
      by (simp add: generate_frames_failed del: generate_frames.simps)
  next
    case True
    with Cons show ?thesis
      by (cases "fst (imencode (annotate (snd r)))")
        (simp_all add: generate_frames_skip generate_frames_yield del: generate_frames.simps)
  qed
qed

lemma generate_frames_ended:
  "snd (generate_frames annotate imencode rs) = Ended \<Longrightarrow>
     generate_frames annotate imencode (rs @ rs2) = generate_frames annotate imencode rs"
proof (induction rs)
  case Nil
  then show ?case by simp
next
  case (Cons r rs)
  show ?case
  proof (cases "fst r")
    case False
    then show ?thesis
      by (simp add: generate_frames_failed del: generate_frames.simps)
  next
    case True
    with Cons show ?thesis
      by (cases "fst (imencode (annotate (snd r)))")
        (simp_all add: generate_frames_skip generate_frames_yield del: generate_frames.simps)
  qed
qed

text \<open>
  Claim C9, as stated, fails: a capture that succeeds but whose JPEG encoding fails
  yields nothing, so one successful capture can stand against no yielded frame.
\<close>

theorem generate_frames_counterexample:
  "captured id [(True, ''raw'')] = [''raw''] \<and>
   generate_frames id (Pair False) [(True, ''raw'')] = ([], Running)"
  by (simp add: captured_def get_frame_def)

text \<open>
  Claim C9, amended. The generator yields, in capture order, one encoded part for every
  successful capture whose JPEG encoding succeeds, and skips a capture whose encoding
  fails without ending; it has ended exactly when some \<open>get_frame()\<close> call reported no
  frame, and once ended it yields nothing more, whatever the camera would deliver later.
\<close>

theorem generate_frames_behaviour:
  "fst (generate_frames annotate imencode rs) =
     map (\<lambda>f. part (snd (imencode f))) (filter (\<lambda>f. fst (imencode f)) (captured annotate rs)) \<and>
   (snd (generate_frames annotate imencode rs) = Ended) =
     list_ex (\<lambda>r. get_frame annotate r = None) rs \<and>
   (\<not> fst (imencode (annotate f)) \<longrightarrow>
      generate_frames annotate imencode ((True, f) # rs) = generate_frames annotate imencode rs) \<and>
   (snd (generate_frames annotate imencode rs) = Ended \<longrightarrow>
      generate_frames annotate imencode (rs @ rs2) = generate_frames annotate imencode rs)"
  using generate_frames_parts [of annotate imencode rs]
    generate_frames_status [of annotate imencode rs]
    generate_frames_ended [of annotate imencode rs rs2]
    generate_frames_skip [of "(True, f)" imencode annotate rs]
  by (simp add: get_frame_None del: generate_frames.simps)

theorem generate_frames_behaviour_witness:
  "generate_frames id (\<lambda>f. (f \<noteq> ''bad'', f))
       [(True, ''a''), (True, ''bad''), (True, ''b''), (False, ''x''), (True, ''c'')] =
     ([part ''a'', part ''b''], Ended) \<and>
   generate_frames id (\<lambda>f. (f \<noteq> ''bad'', f)) [(True, ''a''), (True, ''bad''), (True, ''b'')] =
     ([part ''a'', part ''b''], Running)"
  using generate_frames_behaviour [of id "\<lambda>f. (f \<noteq> ''bad'', f)"
      "[(True, ''a''), (True, ''bad''), (True, ''b''), (False, ''x''), (True, ''c'')]" "''bad''" "[]"]
  by (simp add: get_frame_def)

subsection \<open>Recording listing\<close>

lemma collect_ok:
  "\<forall>e\<in>set es. is_video (e_name e) \<longrightarrow> stat_ok e \<noteq> None \<Longrightarrow>
     collect es acc = Inr (acc @ map file_entry (video_stats es))"
proof (induction es arbitrary: acc)
  case Nil
  show ?case by (simp add: video_stats_def video_entries_def List.map_filter_simps)
next
  case (Cons e es)
  then have IH: "\<And>acc. collect es acc = Inr (acc @ map file_entry (video_stats es))"
    by simp
  show ?case
  proof (cases "is_video (e_name e)")
    case False
    then show ?thesis
      by (simp add: IH video_stats_def video_entries_def)
  next
    case True
    with Cons.prems obtain f where f: "stat_ok e = Some f" by auto
    then obtain bytes mtime where "e_size e = Inr bytes" "e_mtime e = Inr mtime"
      and "f = \<lparr>st_name = e_name e, st_size = bytes, st_mtime = mtime\<rparr>"
      by (auto simp add: stat_ok_def split: sum.splits)
    with True f show ?thesis
      by (simp add: IH video_stats_def video_entries_def List.map_filter_simps file_entry_def
          del: strftime.simps)
  qed
qed

lemma collect_fail:
  "\<exists>e\<in>set es. is_video (e_name e) \<and> stat_ok e = None \<Longrightarrow> \<exists>x. collect es acc = Inl x"
proof (induction es arbitrary: acc)
  case Nil
  then show ?case by simp
next
  case (Cons e es)
  show ?case
  proof (cases "is_video (e_name e) \<and> stat_ok e = None")
    case True
    then show ?thesis
      by (auto simp add: stat_ok_def split: sum.splits)
  next
    case False
    with Cons.prems have "\<exists>e\<in>set es. is_video (e_name e) \<and> stat_ok e = None" by auto
    then have "\<And>acc. \<exists>x. collect es acc = Inl x" by (rule Cons.IH)
    then show ?thesis
      by (auto simp add: split: sum.splits)
  qed
qed

lemma insort_key_map:
  "insort_key k (g x) (map g xs) = map g (insort_key (\<lambda>y. k (g y)) x xs)"
  by (induction xs) simp_all

lemma sort_key_map: "sort_key k (map g xs) = map g (sort_key (\<lambda>y. k (g y)) xs)"
  by (induction xs) (simp_all add: insort_key_map)

lemma sorted_reverse_map:
  "sorted_reverse k (map g xs) = map g (sorted_reverse (\<lambda>y. k (g y)) xs)"
  by (simp add: sorted_reverse_def sort_key_map rev_map)

lemma sorted_reverse_mset: "mset (sorted_reverse k xs) = mset xs"
  by (simp add: sorted_reverse_def)

lemma sorted_reverse_sorted: "sorted_wrt (\<lambda>a b. k b \<le> k a) (sorted_reverse k xs)"
proof -
  have "sorted (map k (sort_key k (rev xs)))" by (rule sorted_sort_key)
  then have "sorted_wrt (\<lambda>a b. k a \<le> k b) (sort_key k (rev xs))"
    by (simp add: sorted_map)
  then show ?thesis
    by (simp add: sorted_reverse_def sorted_wrt_rev)
qed

lemma sorted_reverse_stable:
  "filter (\<lambda>y. k y = c) (sorted_reverse k xs) = filter (\<lambda>y. k y = c) xs"
  by (simp add: sorted_reverse_def rev_filter [symmetric] sort_key_stable)

lemma get_recording_list_ok:
  "\<forall>e\<in>set es. is_video (e_name e) \<longrightarrow> stat_ok e \<noteq> None \<Longrightarrow>
     get_recording_list (Inr es) = Inr (map file_entry (listing_order es))"
  by (simp add: get_recording_list_def try_except_def collect_ok sorted_reverse_map
      listing_order_def)

lemma get_recording_list_fail:
  "\<exists>e\<in>set es. is_video (e_name e) \<and> stat_ok e = None \<Longrightarrow>
     get_recording_list (Inr es) = Inr []"
  using collect_fail [of es "[]"]
  by (auto simp add: get_recording_list_def try_except_def)

lemma video_stats_names:
  "\<forall>e\<in>set es. is_video (e_name e) \<longrightarrow> stat_ok e \<noteq> None \<Longrightarrow>
     map st_name (video_stats es) = filter is_video (map e_name es)"
proof (induction es)
  case Nil
  show ?case by (simp add: video_stats_def video_entries_def List.map_filter_simps)
next
  case (Cons e es)
  then have IH: "map st_name (video_stats es) = filter is_video (map e_name es)" by simp
  show ?case
  proof (cases "is_video (e_name e)")
    case False
    with IH show ?thesis by (simp add: video_stats_def video_entries_def)
  next
    case True
    with Cons.prems obtain f where f: "stat_ok e = Some f" by auto
    then have "st_name f = e_name e"
      by (auto simp add: stat_ok_def split: sum.splits)
    with True f IH show ?thesis
      by (simp add: video_stats_def video_entries_def List.map_filter_simps)
  qed
qed

lemma round_half_even_close: "\<bar>of_int (round_half_even y) - y\<bar> \<le> 1 / 2"
proof -
  have "of_int \<lfloor>y\<rfloor> \<le> y" "y < of_int \<lfloor>y\<rfloor> + 1" by linarith+
  then show ?thesis
    by (auto simp add: round_half_even_def Let_def)
qed

lemma py_round_2_close: "\<bar>py_round x 2 - x\<bar> \<le> 1 / 200"
proof -
  have "\<bar>of_int (round_half_even (x * 100)) - x * 100\<bar> \<le> 1 / 2"
    by (rule round_half_even_close)
  then show ?thesis
    by (simp add: py_round_def abs_le_iff field_simps)
qed

lemma py_round_2_hundredths: "py_round x 2 * 100 = of_int (round_half_even (x * 100))"
  by (simp add: py_round_def)

lemma of_char_digit_lt: "k < 10 \<Longrightarrow> (of_char (''0123456789'' ! k) :: nat) = 48 + k"
proof -
  assume "k < 10"
  then have "k \<in> {0,1,2,3,4,5,6,7,8,9}" by auto
  then show ?thesis by auto
qed

lemma of_char_digit: "(of_char (digit n) :: nat) = 48 + n mod 10"
  unfolding digit_def by (rule of_char_digit_lt) simp

lemma digit_less: "(digit m < digit n) = (m mod 10 < n mod 10)"
  by (simp add: less_char_def of_char_digit)

lemma digit_eq: "(digit m = digit n) = (m mod 10 = n mod 10)"
proof -
  have "(digit m = digit n) = ((of_char (digit m) :: nat) = of_char (digit n))"
    by simp
  then show ?thesis by (simp add: of_char_digit)
qed

lemma divmod_less:
  assumes k: "0 < k"
  shows "((a::nat) < b) = (a div k < b div k \<or> a div k = b div k \<and> a mod k < b mod k)"
proof (cases "a div k = b div k")
  case True
  have "a = k * (a div k) + a mod k" "b = k * (b div k) + b mod k" by simp_all
  with True have "(a < b) = (a mod k < b mod k)"
    by (metis nat_add_left_cancel_less)
  with True show ?thesis by simp
next
  case False
  show ?thesis
  proof (cases "a div k < b div k")
    case True
    have "a < b"
    proof (rule ccontr)
      assume "\<not> a < b"
      then have "b div k \<le> a div k" by (simp add: div_le_mono)
      with True show False by simp
    qed
    with True show ?thesis by simp
  next
    case F2: False
    with False have "b div k < a div k" by simp
    then have "\<not> a < b"
      using div_le_mono [of a b k] by auto
    with F2 False show ?thesis by simp
  qed
qed

lemma divmod_eq: "((a::nat) = b) = (a div k = b div k \<and> a mod k = b mod k)"
proof
  assume "a div k = b div k \<and> a mod k = b mod k"
  then have "k * (a div k) + a mod k = k * (b div k) + b mod k" by simp
  then show "a = b" by simp
qed simp

lemma mod100: "(n::nat) mod 100 div 10 = n div 10 mod 10"
proof -
  have "n mod 100 = 10 * (n div 10 mod 10) + n mod 10"
    using mod_mult2_eq [of n 10 10] by simp
  then show ?thesis by simp
qed

lemma pad2_less:
  assumes a: "a < 100" and b: "b < 100"
  shows "(pad2 a @ xs < pad2 b @ ys) = (a < b \<or> a = b \<and> xs < ys)"
proof -
  from a b have small: "a div 10 mod 10 = a div 10" "b div 10 mod 10 = b div 10" by simp_all
  have "(pad2 a @ xs < pad2 b @ ys) =
      (a div 10 < b div 10 \<or> a div 10 = b div 10 \<and>
         (a mod 10 < b mod 10 \<or> a mod 10 = b mod 10 \<and> xs < ys))"
    by (simp add: pad2_def digit_less digit_eq small)
  also have "\<dots> = (a < b \<or> a = b \<and> xs < ys)"
    unfolding divmod_less [of 10 a b, simplified] divmod_eq [of a b 10] by blast
  finally show ?thesis .
qed

lemma pad4_split: "pad4 n = pad2 (n div 100) @ pad2 (n mod 100)"
proof -
  have 1: "n div 100 div 10 = n div 1000" by (simp add: div_mult2_eq)
  have 2: "n mod 100 mod 10 = n mod 10" by (simp add: mod_mod_cancel)
  show ?thesis
    by (simp add: pad4_def pad2_def digit_eq 1 2 mod100)
qed

lemma pad4_less:
  assumes a: "a < 10000" and b: "b < 10000"
  shows "(pad4 a @ xs < pad4 b @ ys) = (a < b \<or> a = b \<and> xs < ys)"
proof -
  from a b have small: "a div 100 < 100" "b div 100 < 100" "a mod 100 < 100" "b mod 100 < 100"
    by simp_all
  have "(pad4 a @ xs < pad4 b @ ys) =
      (a div 100 < b div 100 \<or> a div 100 = b div 100 \<and>
         (a mod 100 < b mod 100 \<or> a mod 100 = b mod 100 \<and> xs < ys))"
    by (simp add: pad4_split pad2_less small)
  also have "\<dots> = (a < b \<or> a = b \<and> xs < ys)"
    unfolding divmod_less [of 100 a b, simplified] divmod_eq [of a b 100] by blast
  finally show ?thesis .
qed

lemma strftime_iso:
  "strftime d ''%Y-%m-%d %H:%M:%S'' =
     pad4 (year d) @ CHR ''-'' # pad2 (month d) @ CHR ''-'' # pad2 (day d) @ CHR '' '' #
     pad2 (hour d) @ CHR '':'' # pad2 (minute d) @ CHR '':'' # pad2 (second d) @ []"
  by (simp add: directive_def)

lemma date_less:
  assumes "valid_datetime a" and "valid_datetime b"
  shows "(strftime a ''%Y-%m-%d %H:%M:%S'' < strftime b ''%Y-%m-%d %H:%M:%S'') =
     (to_seconds a < to_seconds b)"
proof -
  from assms have bounds:
    "year a < 10000" "month a < 100" "day a < 100" "hour a < 100" "minute a < 100" "second a < 100"
    "year b < 10000" "month b < 100" "day b < 100" "hour b < 100" "minute b < 100" "second b < 100"
    by (simp_all add: valid_datetime_def)
  have "(strftime a ''%Y-%m-%d %H:%M:%S'' < strftime b ''%Y-%m-%d %H:%M:%S'') =
      (year a < year b \<or> year a = year b \<and>
        (month a < month b \<or> month a = month b \<and>
          (day a < day b \<or> day a = day b \<and>
            (hour a < hour b \<or> hour a = hour b \<and>
              (minute a < minute b \<or> minute a = minute b \<and> second a < second b)))))"
    unfolding strftime_iso
    by (simp only: pad4_less pad2_less bounds Cons_less_Cons less_irrefl simp_thms)
  also have "\<dots> = (to_seconds a < to_seconds b)"
    by (auto simp add: to_seconds_def)
  finally show ?thesis .
qed

lemma date_le:
  assumes "valid_datetime a" and "valid_datetime b"
  shows "(strftime a ''%Y-%m-%d %H:%M:%S'' \<le> strftime b ''%Y-%m-%d %H:%M:%S'') =
     (to_seconds a \<le> to_seconds b)"
  using date_less [OF assms(2) assms(1)] by (simp add: not_less [symmetric] del: strftime.simps)

lemma listing_order_mset: "mset (listing_order es) = mset (video_stats es)"
  by (simp add: listing_order_def sorted_reverse_mset)

lemma listing_order_sorted:
  "sorted_wrt (\<lambda>f g. date (file_entry g) \<le> date (file_entry f)) (listing_order es)"
  unfolding listing_order_def by (rule sorted_reverse_sorted)

lemma listing_order_stable:
  "filter (\<lambda>f. date (file_entry f) = k) (listing_order es) =
     filter (\<lambda>f. date (file_entry f) = k) (video_stats es)"
  unfolding listing_order_def by (rule sorted_reverse_stable)

lemma listing_order_chronological:
  assumes "\<forall>f\<in>set (video_stats es). valid_datetime (st_mtime f)"
  shows "sorted_wrt (\<lambda>f g. to_seconds (st_mtime g) \<le> to_seconds (st_mtime f)) (listing_order es)"
proof (rule sorted_wrt_mono_rel [OF _ listing_order_sorted])
  fix f g
  assume "f \<in> set (listing_order es)" and "g \<in> set (listing_order es)"
  then have "f \<in> set (video_stats es)" and "g \<in> set (video_stats es)"
    by (simp_all add: listing_order_mset [THEN mset_eq_setD])
  with assms have "valid_datetime (st_mtime f)" and "valid_datetime (st_mtime g)"
    by simp_all
  moreover assume "date (file_entry g) \<le> date (file_entry f)"
  ultimately show "to_seconds (st_mtime g) \<le> to_seconds (st_mtime f)"
    by (simp add: file_entry_def date_le del: strftime.simps)
qed

lemma video_stats_entries:
  "\<forall>e\<in>set es. is_video (e_name e) \<longrightarrow> stat_ok e \<noteq> None \<Longrightarrow>
     map Some (video_stats es) = map stat_ok (video_entries es)"
proof (induction es)
  case Nil
  show ?case by (simp add: video_stats_def video_entries_def List.map_filter_simps)
next
  case (Cons e es)
  then have IH: "map Some (video_stats es) = map stat_ok (video_entries es)" by simp
  show ?case
  proof (cases "is_video (e_name e)")
    case False
    with IH show ?thesis by (simp add: video_stats_def video_entries_def)
  next
    case True
    with Cons.prems obtain f where f: "stat_ok e = Some f" by auto
    with True IH show ?thesis
      by (simp add: video_stats_def video_entries_def List.map_filter_simps)
  qed
qed

lemma file_entry_fields:
  "name (file_entry f) = st_name f \<and>
   date (file_entry f) = strftime (st_mtime f) ''%Y-%m-%d %H:%M:%S'' \<and>
   \<bar>size_mb (file_entry f) - real (st_size f) / 1024 ^ 2\<bar> \<le> 1 / 200 \<and>
   (\<exists>k::int. size_mb (file_entry f) * 100 = of_int k)"
  using py_round_2_close [of "real (st_size f) / 1024 ^ 2"]
    py_round_2_hundredths [of "real (st_size f) / 1024 ^ 2"]
  by (simp add: file_entry_def del: strftime.simps)

text \<open>
  Claim C8, as stated, fails on two directory states. When one entry with a video
  extension cannot be queried (a dangling link, say), the listing is empty although the
  directory holds another video file. And two files modified within the same second are
  listed in directory order, here the older one first.
\<close>

theorem recording_list_counterexample:
  "is_video ''a.avi'' \<and>
   get_recording_list (Inr
     [\<lparr>e_name = ''a.avi'', e_size = Inr 1048576,
       e_mtime = Inr \<lparr>year = 2024, month = 1, day = 15, hour = 10, minute = 30, second = 45,
                      microsecond = 0\<rparr>\<rparr>,
      \<lparr>e_name = ''b.avi'', e_size = Inl OSError, e_mtime = Inl OSError\<rparr>]) = Inr [] \<and>
   listing_names (get_recording_list (Inr
     [\<lparr>e_name = ''a.avi'', e_size = Inr 1048576,
       e_mtime = Inr \<lparr>year = 2024, month = 1, day = 15, hour = 10, minute = 30, second = 45,
                      microsecond = 200000\<rparr>\<rparr>,
      \<lparr>e_name = ''b.avi'', e_size = Inr 1048576,
       e_mtime = Inr \<lparr>year = 2024, month = 1, day = 15, hour = 10, minute = 30, second = 45,
                      microsecond = 700000\<rparr>\<rparr>])) = [''a.avi'', ''b.avi'']"
  by (simp add: get_recording_list_def try_except_def is_video_def endswith_def
      sorted_reverse_def listing_names_def directive_def)

text \<open>
  Claim C8, amended. When the storage root can be listed and every entry with a
  recognised extension (\<open>.avi\<close> or \<open>.mp4\<close>) can be queried, the listing holds exactly
  these entries, each with its name, its size in megabytes rounded to 2 decimals and its
  last-modified time formatted to the second; it is sorted by that formatted time
  descending, which for four-digit years is the modification time cut to whole seconds,
  and entries modified within the same second keep their directory order. When listing
  the directory or querying one such entry fails, the listing is empty.
\<close>

theorem recording_list_contents:
  "get_recording_list (Inl x) = Inr [] \<and>
   ((\<exists>e\<in>set entries. is_video (e_name e) \<and> stat_ok e = None) \<longrightarrow>
      get_recording_list (Inr entries) = Inr []) \<and>
   ((\<forall>e\<in>set entries. is_video (e_name e) \<longrightarrow> stat_ok e \<noteq> None) \<longrightarrow>
      get_recording_list (Inr entries) = Inr (map file_entry (listing_order entries)) \<and>
      mset (listing_order entries) = mset (video_stats entries) \<and>
      map Some (video_stats entries) = map stat_ok (video_entries entries) \<and>
      map st_name (video_stats entries) = filter is_video (map e_name entries) \<and>
      sorted_wrt (\<lambda>f g. date (file_entry g) \<le> date (file_entry f)) (listing_order entries) \<and>
      (\<forall>k. filter (\<lambda>f. date (file_entry f) = k) (listing_order entries) =
           filter (\<lambda>f. date (file_entry f) = k) (video_stats entries)) \<and>
      ((\<forall>f\<in>set (video_stats entries). valid_datetime (st_mtime f)) \<longrightarrow>
         sorted_wrt (\<lambda>f g. to_seconds (st_mtime g) \<le> to_seconds (st_mtime f))
           (listing_order entries))) \<and>
   name (file_entry f) = st_name f \<and>
   date (file_entry f) = strftime (st_mtime f) ''%Y-%m-%d %H:%M:%S'' \<and>
   \<bar>size_mb (file_entry f) - real (st_size f) / 1024 ^ 2\<bar> \<le> 1 / 200 \<and>
   (\<exists>k::int. size_mb (file_entry f) * 100 = of_int k)"
proof -
  have fail: "get_recording_list (Inl x) = Inr []"
    by (simp add: get_recording_list_def try_except_def)
  show ?thesis
    using fail get_recording_list_fail [of entries] get_recording_list_ok [of entries]
      listing_order_mset [of entries] video_stats_entries [of entries]
      video_stats_names [of entries] listing_order_sorted [of entries]
      listing_order_stable [of _ entries] listing_order_chronological [of entries]
      file_entry_fields [of f]
    by (simp del: strftime.simps)
qed

theorem recording_list_contents_witness:
  "get_recording_list (Inr
     [\<lparr>e_name = ''b.avi'', e_size = Inr 1048576,
       e_mtime = Inr \<lparr>year = 2024, month = 1, day = 15, hour = 10, minute = 30, second = 45,
                      microsecond = 0\<rparr>\<rparr>,
      \<lparr>e_name = ''notes.txt'', e_size = Inl OSError, e_mtime = Inl OSError\<rparr>,
      \<lparr>e_name = ''a.mp4'', e_size = Inr 5242880,
       e_mtime = Inr \<lparr>year = 2024, month = 1, day = 15, hour = 10, minute = 31, second = 0,
                      microsecond = 0\<rparr>\<rparr>]) =
   Inr (map file_entry (listing_order
     [\<lparr>e_name = ''b.avi'', e_size = Inr 1048576,
       e_mtime = Inr \<lparr>year = 2024, month = 1, day = 15, hour = 10, minute = 30, second = 45,
                      microsecond = 0\<rparr>\<rparr>,
      \<lparr>e_name = ''notes.txt'', e_size = Inl OSError, e_mtime = Inl OSError\<rparr>,
      \<lparr>e_name = ''a.mp4'', e_size = Inr 5242880,
       e_mtime = Inr \<lparr>year = 2024, month = 1, day = 15, hour = 10, minute = 31, second = 0,
                      microsecond = 0\<rparr>\<rparr>])) \<and>
   listing_names (get_recording_list (Inr
     [\<lparr>e_name = ''b.avi'', e_size = Inr 1048576,
       e_mtime = Inr \<lparr>year = 2024, month = 1, day = 15, hour = 10, minute = 30, second = 45,
                      microsecond = 0\<rparr>\<rparr>,
      \<lparr>e_name = ''notes.txt'', e_size = Inl OSError, e_mtime = Inl OSError\<rparr>,
      \<lparr>e_name = ''a.mp4'', e_size = Inr 5242880,
       e_mtime = Inr \<lparr>year = 2024, month = 1, day = 15, hour = 10, minute = 31, second = 0,
                      microsecond = 0\<rparr>\<rparr>])) = [''a.mp4'', ''b.avi'']"
proof -
  let ?dir = "[\<lparr>e_name = ''b.avi'', e_size = Inr 1048576,
       e_mtime = Inr \<lparr>year = 2024, month = 1, day = 15, hour = 10, minute = 30, second = 45,
                      microsecond = 0\<rparr>\<rparr>,
      \<lparr>e_name = ''notes.txt'', e_size = Inl OSError, e_mtime = Inl OSError\<rparr>,
      \<lparr>e_name = ''a.mp4'', e_size = Inr 5242880,
       e_mtime = Inr \<lparr>year = 2024, month = 1, day = 15, hour = 10, minute = 31, second = 0,
                      microsecond = 0\<rparr>\<rparr>]"
  have readable: "\<forall>e\<in>set ?dir. is_video (e_name e) \<longrightarrow> stat_ok e \<noteq> None"
    by (simp add: stat_ok_def is_video_def endswith_def)
  have names: "listing_names (get_recording_list (Inr ?dir)) = [''a.mp4'', ''b.avi'']"
    by (simp add: get_recording_list_def try_except_def is_video_def endswith_def
        sorted_reverse_def listing_names_def directive_def pad2_def pad4_def digit_def)
  from recording_list_contents [of OSError ?dir "\<lparr>st_name = [], st_size = 0,
      st_mtime = \<lparr>year = 2024, month = 1, day = 15, hour = 10, minute = 30, second = 45,
                     microsecond = 0\<rparr>\<rparr>"] readable
  have "get_recording_list (Inr ?dir) = Inr (map file_entry (listing_order ?dir))"
    by blast
  then show ?thesis using names by (rule conjI)
qed

end
